theory Spec2Isabelle
  imports Main
begin

section \<open>Data model\<close>

text \<open>
  Objects of the program are identified by references.  A transport socket, a
  \<open>Connection\<close> object and a registered message callback are each named by a natural
  number; \<open>indexOf\<close> compares \<open>Connection\<close> objects by identity, which is equality of
  references here.  Arguments that the source tests with \<open>!x\<close> are \<open>option\<close> values,
  \<open>None\<close> standing for \<open>null\<close> and \<open>undefined\<close>.
\<close>

type_synonym sock = nat
type_synonym conn_ref = nat
type_synonym handler = nat

text \<open>The error descriptor \<open>{id, msg}\<close>; the field \<open>id\<close> is named \<open>id_d\<close>.\<close>

record descriptor =
  id_d :: int
  msg :: string

text \<open>The one registry a \<open>Connection\<close> can point back to.\<close>

datatype server_ref = SessionServerRef

text \<open>
  What a call can throw: \<open>new Error(message)\<close>, the \<open>TypeError\<close> of reading a property
  of \<open>null\<close>, and the \<open>SyntaxError\<close> of \<open>JSON.parse\<close>.
\<close>

datatype error = Error string | TypeError | SyntaxError

datatype event_name = CONNECTION_REQUEST | CONNECT | DISCONNECT

text \<open>
  The argument of a notification: the registry's shared \<open>connectionRequestArgs\<close>
  object, or a \<open>Connection\<close>.
\<close>

datatype payload = ArgsPayload | ConnPayload conn_ref

text \<open>
  The observable effects of the code, in the order they happen: a line on the
  console, a listener registered on a socket, a socket closed or written, and a
  notification fired by the registry.
\<close>

datatype effect =
    Log string
  | SocketOn sock string conn_ref
  | SocketClose sock int string
  | SocketWrite sock string
  | Fire event_name payload

text \<open>
  The fields of \<open>Connection\<close>.  The first version of the class has no \<open>messageHandler\<close>
  field; the second one initialises it to \<open>null\<close>.
\<close>

record Connection =
  sessionServer :: "server_ref option"
  messageHandler :: "handler option"
  credentials :: "nat option"
  socket :: "sock option"
  player :: "nat option"
  keepAlive :: int

text \<open>The private fields \<open>_isAllowed\<close> and \<open>_isDenied\<close> are \<open>priv_isAllowed\<close> and \<open>priv_isDenied\<close>.\<close>

record ConnectionRequestEventArgs =
  priv_isAllowed :: bool
  priv_isDenied :: bool
  connection :: "conn_ref option"
  error :: descriptor

text \<open>
  The fields of \<open>SessionServer\<close> that the registry uses (\<open>app\<close>, \<open>port\<close>, \<open>prefix\<close> and
  \<open>httpServer\<close> belong to the transport set-up of \<open>onActivate\<close>).
\<close>

record SessionServer =
  connectionList :: "conn_ref list"
  connectionRequestArgs :: ConnectionRequestEventArgs

text \<open>
  The whole state: the registry, the \<open>Connection\<close> objects allocated so far (the
  reference of an object is its position) and the effects observed so far.
\<close>

record world =
  server :: SessionServer
  heap :: "Connection list"
  trace :: "effect list"


section \<open>Connection\<close>


definition SERVER_FULL :: descriptor where
  "SERVER_FULL = \<lparr>id_d = 100, msg = ''Server Full''\<rparr>"

definition SESSION_TERMINATED :: descriptor where
  "SESSION_TERMINATED = \<lparr>id_d = 101, msg = ''Session Terminated''\<rparr>"

text \<open>
  The constructor.  \<open>now\<close> is the value of \<open>Date.now()\<close> and \<open>this\<close> the reference of the
  object under construction, which the two \<open>socket.on\<close> registrations bind.
\<close>

definition Connection_new ::
  "server_ref option \<Rightarrow> sock option \<Rightarrow> int \<Rightarrow> conn_ref \<Rightarrow> error + (Connection \<times> effect list)" where
  "Connection_new srv so now this =
     (case srv of
        None \<Rightarrow> Inl (Error ''Cannot create connection without a valid session server object.'')
      | Some sv \<Rightarrow>
          (case so of
             None \<Rightarrow> Inl (Error ''Cannot create connection without a valid socket.'')
           | Some s \<Rightarrow>
               Inr (\<lparr>sessionServer = Some sv, messageHandler = None, credentials = None,
                     socket = Some s, player = None, keepAlive = now\<rparr>,
                    [SocketOn s ''close'' this, SocketOn s ''data'' this])))"

text \<open>
  \<open>disconnect(err)\<close>.  The argument is read (\<open>err.id\<close>) only inside the branch of a
  present socket, before \<open>socket.close\<close> is called; reading it from \<open>null\<close> throws.
\<close>

definition disconnect :: "descriptor option \<Rightarrow> Connection \<Rightarrow> error + (Connection \<times> effect list)" where
  "disconnect err c =
     (case socket c of
        None \<Rightarrow> Inr (c, [])
      | Some s \<Rightarrow>
          (case err of
             None \<Rightarrow> Inl TypeError
           | Some e \<Rightarrow>
               Inr (c\<lparr>sessionServer := None, socket := None\<rparr>,
                    [SocketClose s (id_d e) (msg e)])))"

definition onMessage :: "handler option \<Rightarrow> Connection \<Rightarrow> Connection" where
  "onMessage cb c = c\<lparr>messageHandler := cb\<rparr>"

definition send :: "string \<Rightarrow> Connection \<Rightarrow> effect list" where
  "send dat c = (case socket c of None \<Rightarrow> [] | Some s \<Rightarrow> [SocketWrite s dat])"



text \<open>
  \<open>_onReceiveData\<close> of the first version of the class ignores its argument and writes
  one line on the console.
\<close>

definition onReceiveData_log :: "string \<Rightarrow> Connection \<Rightarrow> effect list" where
  "onReceiveData_log raw c = [Log ''received message from client.'']"

text \<open>
  \<open>_onReceiveData\<close> of the version with a message handler.  \<open>JSON.parse\<close> belongs to the
  language runtime and is a parameter: \<open>None\<close> is the \<open>SyntaxError\<close> it throws.  The
  result \<open>Some (h, this, parsedData)\<close> is the call \<open>h(this, parsedData)\<close>; \<open>None\<close> is no
  call at all.  No field of the \<open>Connection\<close> is written.
\<close>

definition onReceiveData ::
  "(string \<Rightarrow> 'j option) \<Rightarrow> string \<Rightarrow> conn_ref \<Rightarrow> Connection \<Rightarrow> error + (handler \<times> conn_ref \<times> 'j) option" where
  "onReceiveData JSON_parse raw this c =
     (case messageHandler c of
        None \<Rightarrow> Inr None
      | Some h \<Rightarrow>
          (case JSON_parse raw of
             None \<Rightarrow> Inl SyntaxError
           | Some parsedData \<Rightarrow> Inr (Some (h, this, parsedData))))"

section \<open>ConnectionRequestEventArgs\<close>

definition ConnectionRequestEventArgs_new :: ConnectionRequestEventArgs where
  "ConnectionRequestEventArgs_new =
     \<lparr>priv_isAllowed = False, priv_isDenied = False, connection = None,
      error = \<lparr>id_d = id_d SERVER_FULL, msg = msg SERVER_FULL\<rparr>\<rparr>"

definition initialize :: "conn_ref option \<Rightarrow> ConnectionRequestEventArgs \<Rightarrow> error + ConnectionRequestEventArgs" where
  "initialize conn a =
     (case conn of
        None \<Rightarrow> Inl (Error ''ConnectEventArgs.initialize - Connection object was null.'')
      | Some c \<Rightarrow>
          Inr (a\<lparr>priv_isAllowed := False, priv_isDenied := False,
                 error := (error a)\<lparr>id_d := id_d SERVER_FULL, msg := msg SERVER_FULL\<rparr>,
                 connection := Some c\<rparr>))"

definition deny :: "descriptor option \<Rightarrow> ConnectionRequestEventArgs \<Rightarrow> error + ConnectionRequestEventArgs" where
  "deny err a =
     (case err of
        None \<Rightarrow> Inl (Error ''ConnectEventArgs.deny - Invalid error code specified during connection attempt.'')
      | Some e \<Rightarrow>
          Inr (a\<lparr>error := (error a)\<lparr>id_d := id_d e, msg := msg e\<rparr>, priv_isDenied := True\<rparr>))"

definition allow :: "ConnectionRequestEventArgs \<Rightarrow> ConnectionRequestEventArgs" where
  "allow a = a\<lparr>priv_isAllowed := True\<rparr>"

definition isDenied :: "ConnectionRequestEventArgs \<Rightarrow> bool" where
  "isDenied a = (priv_isDenied a \<or> \<not> priv_isAllowed a)"

definition isAllowed :: "ConnectionRequestEventArgs \<Rightarrow> bool" where
  "isAllowed a = priv_isAllowed a"

section \<open>Subscribers of CONNECTION_REQUEST\<close>

text \<open>
  \<open>fire\<close> is inherited from \<open>EventGameSystem\<close> of the package \<open>@nfactorial/game_state_js\<close>.
  What the subscribers of \<open>CONNECTION_REQUEST\<close> do with the request is the input of
  the model: each subscriber is the list of \<open>allow()\<close> and \<open>deny(err)\<close> calls it makes on
  the shared object, and the subscribers run one after the other, in the order they
  registered, before \<open>fire\<close> returns.  A call that throws ends the broadcast, and the
  exception leaves \<open>fire\<close>.  A \<open>CONNECT\<close> or \<open>DISCONNECT\<close> notification is recorded
  as an effect; what its subscribers do next is a later event of the run.
\<close>

datatype call = Allow | Deny "descriptor option"

type_synonym subscriber = "call list"

fun apply_call :: "call \<Rightarrow> ConnectionRequestEventArgs \<Rightarrow> error + ConnectionRequestEventArgs" where
  "apply_call Allow a = Inr (allow a)"
| "apply_call (Deny err) a = deny err a"

fun deliver :: "call list \<Rightarrow> ConnectionRequestEventArgs \<Rightarrow> ConnectionRequestEventArgs \<times> error option" where
  "deliver [] a = (a, None)"
| "deliver (x # xs) a =
     (case apply_call x a of
        Inl e \<Rightarrow> (a, Some e)
      | Inr a' \<Rightarrow> deliver xs a')"

definition fire_request :: "subscriber list \<Rightarrow> ConnectionRequestEventArgs \<Rightarrow> ConnectionRequestEventArgs \<times> error option" where
  "fire_request subs a = deliver (concat subs) a"

section \<open>SessionServer\<close>

definition SessionServer_new :: SessionServer where
  "SessionServer_new = \<lparr>connectionList = [], connectionRequestArgs = ConnectionRequestEventArgs_new\<rparr>"

definition emit :: "effect list \<Rightarrow> world \<Rightarrow> world" where
  "emit es w = w\<lparr>trace := trace w @ es\<rparr>"

text \<open>\<open>Array.prototype.indexOf\<close>: the first position of the element, or \<open>-1\<close>.\<close>

fun indexOf :: "'a list \<Rightarrow> 'a \<Rightarrow> int" where
  "indexOf [] x = - 1"
| "indexOf (y # ys) x =
     (if y = x then 0
      else (let i = indexOf ys x in if i = - 1 then - 1 else i + 1))"

text \<open>\<open>splice(index, 1)\<close> for an index inside the array.\<close>

definition splice1 :: "'a list \<Rightarrow> nat \<Rightarrow> 'a list" where
  "splice1 xs i = take i xs @ drop (Suc i) xs"

text \<open>
  World-level operations return the new state and the exception that left the call,
  if any.
\<close>

definition removeConnection :: "conn_ref option \<Rightarrow> world \<Rightarrow> world \<times> error option" where
  "removeConnection conn w =
     (case conn of
        None \<Rightarrow> (w, Some (Error ''SessionServer.removeConnection - No connection was specified.''))
      | Some c \<Rightarrow>
          (let index = indexOf (connectionList (server w)) c in
           if index = - 1
           then (emit [Log ''SessionServer.removeConnection - Specified connection could not be found.''] w, None)
           else (emit [Fire DISCONNECT (ConnPayload c)]
                   (w\<lparr>server := (server w)\<lparr>connectionList := splice1 (connectionList (server w)) (nat index)\<rparr>\<rparr>),
                 None)))"

text \<open>
  \<open>_onConnectionAttempt(socket)\<close>.  The new \<open>Connection\<close> takes the next free reference.
  When the constructor throws nothing has been allocated; when a subscriber's call
  throws, the exception leaves the method before the bound connection is cleared and
  before the verdict is read.
\<close>

definition onConnectionAttempt :: "sock option \<Rightarrow> int \<Rightarrow> subscriber list \<Rightarrow> world \<Rightarrow> world \<times> error option" where
  "onConnectionAttempt so now subs w =
     (let w0 = emit [Log ''detected connection attempt''] w;
          this = length (heap w0)
      in case Connection_new (Some SessionServerRef) so now this of
           Inl e \<Rightarrow> (w0, Some e)
         | Inr (c, es) \<Rightarrow>
             (let w1 = emit es (w0\<lparr>heap := heap w0 @ [c]\<rparr>) in
              case initialize (Some this) (connectionRequestArgs (server w1)) of
                Inl e \<Rightarrow> (w1, Some e)
              | Inr a1 \<Rightarrow>
                  (let w2 = emit [Fire CONNECTION_REQUEST ArgsPayload] w1;
                       (a2, thrown) = fire_request subs a1
                   in case thrown of
                        Some e \<Rightarrow> (w2\<lparr>server := (server w2)\<lparr>connectionRequestArgs := a2\<rparr>\<rparr>, Some e)
                      | None \<Rightarrow>
                          (let a3 = a2\<lparr>connection := None\<rparr>;
                               w3 = w2\<lparr>server := (server w2)\<lparr>connectionRequestArgs := a3\<rparr>\<rparr>
                           in if isDenied a3
                              then (let w4 = emit [Log (''connection attempt denied: '' @ msg (error a3))] w3 in
                                    case so of
                                      None \<Rightarrow> (w4, Some TypeError)
                                    | Some s \<Rightarrow> (emit [SocketClose s (id_d (error a3)) (msg (error a3))] w4, None))
                              else (emit [Fire CONNECT (ConnPayload this)]
                                      ((emit [Log ''connection attempt approved''] w3)
                                         \<lparr>server := (server w3)\<lparr>connectionList := connectionList (server w3) @ [this]\<rparr>\<rparr>),
                                    None)))))"

text \<open>
  \<open>_onSocketClosed\<close> of the \<open>Connection\<close> at reference \<open>this\<close>, and \<open>disconnect\<close> of that
  object in the whole state.  A reference that names no object receives no call.
\<close>

definition onSocketClosed :: "conn_ref \<Rightarrow> world \<Rightarrow> world \<times> error option" where
  "onSocketClosed this w =
     (if this < length (heap w)
      then (let c = heap w ! this;
                w1 = w\<lparr>heap := (heap w)[this := c\<lparr>socket := None\<rparr>]\<rparr>
            in case sessionServer c of
                 None \<Rightarrow> (w1, None)
               | Some sv \<Rightarrow> removeConnection (Some this) w1)
      else (w, None))"

definition disconnect_at :: "conn_ref \<Rightarrow> descriptor option \<Rightarrow> world \<Rightarrow> world \<times> error option" where
  "disconnect_at this err w =
     (if this < length (heap w)
      then (case disconnect err (heap w ! this) of
              Inl e \<Rightarrow> (w, Some e)
            | Inr (c, es) \<Rightarrow> (emit es (w\<lparr>heap := (heap w)[this := c]\<rparr>), None))
      else (w, None))"

section \<open>Runs of the registry\<close>

datatype event =
    Attempt "sock option" int "subscriber list"
  | Remove "conn_ref option"
  | Disconnect conn_ref "descriptor option"
  | TransportClose conn_ref

definition init :: world where
  "init = \<lparr>server = SessionServer_new, heap = [], trace = []\<rparr>"

fun step :: "event \<Rightarrow> world \<Rightarrow> world" where
  "step (Attempt so now subs) w = fst (onConnectionAttempt so now subs w)"
| "step (Remove conn) w = fst (removeConnection conn w)"
| "step (Disconnect this err) w = fst (disconnect_at this err w)"
| "step (TransportClose this) w = fst (onSocketClosed this w)"

fun run :: "event list \<Rightarrow> world \<Rightarrow> world" where
  "run [] w = w"
| "run (e # es) w = run es (step e w)"

text \<open>
  The verdict of an attempt, read as \<open>_onConnectionAttempt\<close> reads it: the \<open>isDenied\<close>
  getter of the request object after \<open>initialize\<close> and the broadcast.  The attempt is
  approved when the getter gives \<open>false\<close>.  No verdict is read, and the attempt is not
  approved, when the constructor throws or a subscriber's call throws.
\<close>

definition verdict_approved :: "sock option \<Rightarrow> subscriber list \<Rightarrow> world \<Rightarrow> bool" where
  "verdict_approved so subs w =
     (case so of
        None \<Rightarrow> False
      | Some s \<Rightarrow>
          (case initialize (Some (length (heap w))) (connectionRequestArgs (server w)) of
             Inl e \<Rightarrow> False
           | Inr a1 \<Rightarrow>
               (case fire_request subs a1 of
                  (a2, Some e) \<Rightarrow> False
                | (a2, None) \<Rightarrow> \<not> isDenied a2)))"

text \<open>
  \<open>approved es w c\<close>: in the run of the events \<open>es\<close> from the state \<open>w\<close>, the
  \<open>Connection\<close> \<open>c\<close> was created by an attempt whose verdict was approved.
\<close>

fun approved :: "event list \<Rightarrow> world \<Rightarrow> conn_ref \<Rightarrow> bool" where
  "approved [] w c = False"
| "approved (Attempt so now subs # es) w c =
     ((c = length (heap w) \<and> verdict_approved so subs w) \<or>
      approved es (step (Attempt so now subs) w) c)"
| "approved (e # es) w c = approved es (step e w) c"

text \<open>
  A \<open>Connection\<close> was removed when \<open>DISCONNECT\<close> was fired for it (\<open>removeConnection\<close>
  fires it as it takes the object out of the list), and it has disconnected when its
  socket field is \<open>null\<close>: \<open>disconnect\<close> and \<open>_onSocketClosed\<close> are the two places
  that clear the field.
\<close>

definition removed :: "world \<Rightarrow> conn_ref \<Rightarrow> bool" where
  "removed w c = (Fire DISCONNECT (ConnPayload c) \<in> set (trace w))"

definition live :: "world \<Rightarrow> conn_ref list" where
  "live w = connectionList (server w)"

text \<open>The invariant of the registry as the specification words it, after the events \<open>es\<close>.\<close>

definition registry_invariant :: "event list \<Rightarrow> bool" where
  "registry_invariant es =
     (\<forall>c < length (heap (run es init)).
        (c \<in> set (live (run es init))) =
        (approved es init c \<and> socket (heap (run es init) ! c) \<noteq> None))"

text \<open>The invariant with removal through \<open>removeConnection\<close> taken into account.\<close>

definition registry_invariant_removal :: "event list \<Rightarrow> bool" where
  "registry_invariant_removal es =
     (\<forall>c < length (heap (run es init)).
        (c \<in> set (live (run es init))) =
        (approved es init c \<and> \<not> removed (run es init) c \<and>
         socket (heap (run es init) ! c) \<noteq> None))"

text \<open>
  The runs in which \<open>disconnect\<close> is called only for a \<open>Connection\<close> that is not in the
  live set at the time of the call; the other three events are unrestricted.
\<close>

fun admissible :: "world \<Rightarrow> event \<Rightarrow> bool" where
  "admissible w (Attempt so now subs) = True"
| "admissible w (Remove conn) = True"
| "admissible w (Disconnect this err) = (this \<notin> set (live w))"
| "admissible w (TransportClose this) = True"

fun admissible_run :: "world \<Rightarrow> event list \<Rightarrow> bool" where
  "admissible_run w [] = True"
| "admissible_run w (e # es) = (admissible w e \<and> admissible_run (step e w) es)"

text \<open>
  What the proof of the invariant carries along, on states: \<open>CONNECT\<close> was fired for a
  \<open>Connection\<close>; the members of the live set are the objects for which \<open>CONNECT\<close> and
  no \<open>DISCONNECT\<close> was fired and whose socket is present; the live set has no
  duplicates, every member of it is an allocated object that still holds its registry
  back-reference, and \<open>CONNECT\<close> and \<open>DISCONNECT\<close> were fired only for allocated
  objects.
\<close>

definition connect_fired :: "world \<Rightarrow> conn_ref \<Rightarrow> bool" where
  "connect_fired w c = (Fire CONNECT (ConnPayload c) \<in> set (trace w))"

definition registry_in_step :: "world \<Rightarrow> bool" where
  "registry_in_step w =
     (\<forall>c < length (heap w).
        (c \<in> set (live w)) = (connect_fired w c \<and> \<not> removed w c \<and> socket (heap w ! c) \<noteq> None))"

definition coherent :: "world \<Rightarrow> bool" where
  "coherent w =
     (distinct (live w) \<and>
      (\<forall>c \<in> set (live w). c < length (heap w) \<and> sessionServer (heap w ! c) \<noteq> None) \<and>
      (\<forall>c. connect_fired w c \<longrightarrow> c < length (heap w)) \<and>
      (\<forall>c. removed w c \<longrightarrow> c < length (heap w)))"

section \<open>Auxiliary facts\<close>

lemma indexOf_ge: "- 1 \<le> indexOf xs x"
  by (induction xs) (auto simp: Let_def)

lemma indexOf_notin: "(indexOf xs x = - 1) = (x \<notin> set xs)"
proof (induction xs)
  case Nil
  show ?case by simp
next
  case (Cons y ys)
  have "- 1 \<le> indexOf ys x" by (rule indexOf_ge)
  with Cons show ?case by (auto simp: Let_def)
qed

lemma splice1_indexOf: "x \<in> set xs \<Longrightarrow> splice1 xs (nat (indexOf xs x)) = remove1 x xs"
proof (induction xs)
  case Nil
  then show ?case by simp
next
  case (Cons y ys)
  show ?case
  proof (cases "y = x")
    case True
    then show ?thesis by (simp add: splice1_def)
  next
    case False
    with Cons.prems have mem: "x \<in> set ys" by simp
    then have ne: "indexOf ys x \<noteq> - 1" by (simp add: indexOf_notin)
    have ge: "- 1 \<le> indexOf ys x" by (rule indexOf_ge)
    from ne ge have nat_eq: "nat (indexOf ys x + 1) = Suc (nat (indexOf ys x))" by arith
    from Cons.IH [OF mem] False ne nat_eq show ?thesis
      by (simp add: splice1_def Let_def)
  qed
qed

lemma removeConnection_null:
  "removeConnection None w = (w, Some (Error ''SessionServer.removeConnection - No connection was specified.''))"
  by (simp add: removeConnection_def)

lemma removeConnection_absent:
  "c \<notin> set (live w) \<Longrightarrow> removeConnection (Some c) w =
     (emit [Log ''SessionServer.removeConnection - Specified connection could not be found.''] w, None)"
  by (simp add: removeConnection_def live_def indexOf_notin)

lemma removeConnection_present:
  "c \<in> set (live w) \<Longrightarrow> removeConnection (Some c) w =
     (emit [Fire DISCONNECT (ConnPayload c)]
        (w\<lparr>server := (server w)\<lparr>connectionList := remove1 c (live w)\<rparr>\<rparr>), None)"
  by (simp add: removeConnection_def live_def indexOf_notin splice1_indexOf)

lemma deliver_append:
  "snd (deliver xs a) = None \<Longrightarrow> deliver (xs @ ys) a = deliver ys (fst (deliver xs a))"
  by (induction xs arbitrary: a) (auto split: sum.splits)

lemma deliver_no_null_deny: "Deny None \<notin> set xs \<Longrightarrow> snd (deliver xs a) = None"
proof (induction xs arbitrary: a)
  case Nil
  show ?case by simp
next
  case (Cons x xs)
  show ?case
  proof (cases x)
    case Allow
    with Cons show ?thesis by simp
  next
    case (Deny err)
    with Cons.prems obtain e where "err = Some e" by (cases err) auto
    with Deny Cons show ?thesis by (simp add: deny_def)
  qed
qed

lemma deliver_allow_only:
  "\<forall>x. Deny x \<notin> set xs \<Longrightarrow>
   deliver xs a = (if Allow \<in> set xs then a\<lparr>priv_isAllowed := True\<rparr> else a, None)"
proof (induction xs arbitrary: a)
  case Nil
  show ?case by simp
next
  case (Cons x xs)
  then show ?case
    by (cases x) (auto simp: allow_def)
qed

lemma descriptor_overwrite: "(d :: descriptor)\<lparr>id_d := id_d e, msg := msg e\<rparr> = (e :: descriptor)"
  by (cases d, cases e) simp

lemma initialize_bound:
  "initialize (Some c) a =
     Inr \<lparr>priv_isAllowed = False, priv_isDenied = False, connection = Some c, error = SERVER_FULL\<rparr>"
  by (simp add: initialize_def SERVER_FULL_def)

lemma attempt_denied:
  assumes "initialize (Some (length (heap w))) (connectionRequestArgs (server w)) = Inr a1"
    and "fire_request subs a1 = (a2, None)"
    and "isDenied (a2\<lparr>connection := None\<rparr>)"
  shows "onConnectionAttempt (Some s) now subs w =
     (w\<lparr>server := (server w)\<lparr>connectionRequestArgs := a2\<lparr>connection := None\<rparr>\<rparr>,
        heap := heap w @ [\<lparr>sessionServer = Some SessionServerRef, messageHandler = None,
                           credentials = None, socket = Some s, player = None, keepAlive = now\<rparr>],
        trace := trace w @
          [Log ''detected connection attempt'',
           SocketOn s ''close'' (length (heap w)), SocketOn s ''data'' (length (heap w)),
           Fire CONNECTION_REQUEST ArgsPayload,
           Log (''connection attempt denied: '' @ msg (error a2)),
           SocketClose s (id_d (error a2)) (msg (error a2))]\<rparr>, None)"
  using assms by (simp add: onConnectionAttempt_def Connection_new_def emit_def Let_def)

lemma attempt_approved:
  assumes "initialize (Some (length (heap w))) (connectionRequestArgs (server w)) = Inr a1"
    and "fire_request subs a1 = (a2, None)"
    and "\<not> isDenied (a2\<lparr>connection := None\<rparr>)"
  shows "onConnectionAttempt (Some s) now subs w =
     (w\<lparr>server := (server w)\<lparr>connectionRequestArgs := a2\<lparr>connection := None\<rparr>,
                               connectionList := connectionList (server w) @ [length (heap w)]\<rparr>,
        heap := heap w @ [\<lparr>sessionServer = Some SessionServerRef, messageHandler = None,
                           credentials = None, socket = Some s, player = None, keepAlive = now\<rparr>],
        trace := trace w @
          [Log ''detected connection attempt'',
           SocketOn s ''close'' (length (heap w)), SocketOn s ''data'' (length (heap w)),
           Fire CONNECTION_REQUEST ArgsPayload,
           Log ''connection attempt approved'',
           Fire CONNECT (ConnPayload (length (heap w)))]\<rparr>, None)"
  using assms by (simp add: onConnectionAttempt_def Connection_new_def emit_def Let_def)

section \<open>Admission\<close>

text \<open>
  C1.  When no subscriber of \<open>CONNECTION_REQUEST\<close> calls \<open>allow()\<close> or \<open>deny()\<close>, the attempt
  returns normally with the verdict denied and the descriptor \<open>{id: 100, msg: "Server Full"}\<close>,
  the socket is closed with that id and message, and the live set is what it was: the
  new \<open>Connection\<close> is not added.  The registry may be in any state, with any values
  left in the shared request object by an earlier attempt.
\<close>

theorem no_response_is_denied_server_full:
  assumes "\<forall>sub \<in> set subs. sub = []"
  shows "snd (onConnectionAttempt (Some s) now subs w) = None \<and>
         isDenied (connectionRequestArgs (server (fst (onConnectionAttempt (Some s) now subs w)))) \<and>
         error (connectionRequestArgs (server (fst (onConnectionAttempt (Some s) now subs w)))) =
           \<lparr>id_d = 100, msg = ''Server Full''\<rparr> \<and>
         live (fst (onConnectionAttempt (Some s) now subs w)) = live w \<and>
         trace (fst (onConnectionAttempt (Some s) now subs w)) = trace w @
           [Log ''detected connection attempt'',
            SocketOn s ''close'' (length (heap w)), SocketOn s ''data'' (length (heap w)),
            Fire CONNECTION_REQUEST ArgsPayload,
            Log ''connection attempt denied: Server Full'',
            SocketClose s 100 ''Server Full'']"
proof -
  let ?a1 = "\<lparr>priv_isAllowed = False, priv_isDenied = False,
              connection = Some (length (heap w)), error = SERVER_FULL\<rparr>"
  from assms have quiet: "concat subs = []" by simp
  have fired: "fire_request subs ?a1 = (?a1, None)"
    unfolding fire_request_def quiet by simp
  have den: "isDenied (?a1\<lparr>connection := None\<rparr>)"
    by (simp add: isDenied_def)
  show ?thesis
    by (simp add: attempt_denied [OF initialize_bound fired den] live_def isDenied_def SERVER_FULL_def)
qed

theorem no_response_is_denied_server_full_witness:
  "snd (onConnectionAttempt (Some 7) 1000 [[], []] init) = None \<and>
   isDenied (connectionRequestArgs (server (fst (onConnectionAttempt (Some 7) 1000 [[], []] init)))) \<and>
   live (fst (onConnectionAttempt (Some 7) 1000 [[], []] init)) = [] \<and>
   trace (fst (onConnectionAttempt (Some 7) 1000 [[], []] init)) =
     [Log ''detected connection attempt'',
      SocketOn 7 ''close'' 0, SocketOn 7 ''data'' 0,
      Fire CONNECTION_REQUEST ArgsPayload,
      Log ''connection attempt denied: Server Full'',
      SocketClose 7 100 ''Server Full'']"
  using no_response_is_denied_server_full [of "[[], []]" 7 1000 init]
  by (simp add: init_def live_def SessionServer_new_def)

text \<open>
  C2.  When the calls of the subscribers, in the order they are made, contain a
  \<open>deny(e)\<close> with a descriptor \<open>e\<close> that no other \<open>deny\<close> follows (every \<open>deny\<close> before it
  was given a descriptor too), the verdict is denied whatever \<open>allow()\<close> calls come
  before or after, the final descriptor is \<open>e\<close>, the socket is closed with \<open>e.id\<close> and
  \<open>e.msg\<close>, and the live set is unchanged.
\<close>

theorem deny_wins_with_last_error:
  assumes "concat subs = pre @ Deny (Some e) # post"
    and "Deny None \<notin> set pre"
    and "\<forall>x. Deny x \<notin> set post"
  shows "snd (onConnectionAttempt (Some s) now subs w) = None \<and>
         isDenied (connectionRequestArgs (server (fst (onConnectionAttempt (Some s) now subs w)))) \<and>
         error (connectionRequestArgs (server (fst (onConnectionAttempt (Some s) now subs w)))) = e \<and>
         live (fst (onConnectionAttempt (Some s) now subs w)) = live w \<and>
         trace (fst (onConnectionAttempt (Some s) now subs w)) = trace w @
           [Log ''detected connection attempt'',
            SocketOn s ''close'' (length (heap w)), SocketOn s ''data'' (length (heap w)),
            Fire CONNECTION_REQUEST ArgsPayload,
            Log (''connection attempt denied: '' @ msg e),
            SocketClose s (id_d e) (msg e)]"
proof -
  let ?a1 = "\<lparr>priv_isAllowed = False, priv_isDenied = False,
              connection = Some (length (heap w)), error = SERVER_FULL\<rparr>"
  define b where "b = fst (deliver pre ?a1)"
  define d where "d = b\<lparr>error := e, priv_isDenied := True\<rparr>"
  define a2 where "a2 = (if Allow \<in> set post then d\<lparr>priv_isAllowed := True\<rparr> else d)"
  have pre_ok: "snd (deliver pre ?a1) = None"
    using assms(2) by (rule deliver_no_null_deny)
  have "deliver (pre @ Deny (Some e) # post) ?a1 = deliver (Deny (Some e) # post) b"
    unfolding b_def using pre_ok by (rule deliver_append)
  also have "\<dots> = deliver post d"
    by (simp add: deny_def d_def descriptor_overwrite)
  also have "\<dots> = (a2, None)"
    unfolding a2_def using assms(3) by (rule deliver_allow_only)
  finally have fired: "fire_request subs ?a1 = (a2, None)"
    by (simp add: fire_request_def assms(1))
  have den: "isDenied (a2\<lparr>connection := None\<rparr>)"
    by (simp add: isDenied_def a2_def d_def)
  have err: "error a2 = e"
    by (simp add: a2_def d_def)
  show ?thesis
    by (simp add: attempt_denied [OF initialize_bound fired den] live_def den err)
qed

theorem deny_wins_with_last_error_witness:
  "snd (onConnectionAttempt (Some 7) 1000
          [[Allow], [Deny (Some \<lparr>id_d = 41, msg = ''kicked''\<rparr>)], [Allow, Deny (Some \<lparr>id_d = 42, msg = ''banned''\<rparr>)], [Allow]]
          init) = None \<and>
   error (connectionRequestArgs (server (fst (onConnectionAttempt (Some 7) 1000
          [[Allow], [Deny (Some \<lparr>id_d = 41, msg = ''kicked''\<rparr>)], [Allow, Deny (Some \<lparr>id_d = 42, msg = ''banned''\<rparr>)], [Allow]]
          init)))) = \<lparr>id_d = 42, msg = ''banned''\<rparr> \<and>
   live (fst (onConnectionAttempt (Some 7) 1000
          [[Allow], [Deny (Some \<lparr>id_d = 41, msg = ''kicked''\<rparr>)], [Allow, Deny (Some \<lparr>id_d = 42, msg = ''banned''\<rparr>)], [Allow]]
          init)) = [] \<and>
   trace (fst (onConnectionAttempt (Some 7) 1000
          [[Allow], [Deny (Some \<lparr>id_d = 41, msg = ''kicked''\<rparr>)], [Allow, Deny (Some \<lparr>id_d = 42, msg = ''banned''\<rparr>)], [Allow]]
          init)) =
     [Log ''detected connection attempt'',
      SocketOn 7 ''close'' 0, SocketOn 7 ''data'' 0,
      Fire CONNECTION_REQUEST ArgsPayload,
      Log ''connection attempt denied: banned'',
      SocketClose 7 42 ''banned'']"
  using deny_wins_with_last_error
    [of "[[Allow], [Deny (Some \<lparr>id_d = 41, msg = ''kicked''\<rparr>)], [Allow, Deny (Some \<lparr>id_d = 42, msg = ''banned''\<rparr>)], [Allow]]"
        "[Allow, Deny (Some \<lparr>id_d = 41, msg = ''kicked''\<rparr>), Allow]"
        "\<lparr>id_d = 42, msg = ''banned''\<rparr>" "[Allow]" 7 1000 init]
  by (simp add: init_def live_def SessionServer_new_def)

text \<open>
  C4.  When some subscriber calls \<open>allow()\<close> and no subscriber calls \<open>deny()\<close> (in
  particular when exactly one subscriber calls \<open>allow()\<close>), the attempt returns
  normally, the new \<open>Connection\<close> is appended to the live set, the effects of the
  attempt hold one \<open>CONNECT\<close> notification, carrying that \<open>Connection\<close>, and no
  socket close.
\<close>

theorem allow_without_deny_is_admitted:
  assumes "\<forall>sub \<in> set subs. \<forall>x. Deny x \<notin> set sub"
    and "\<exists>sub \<in> set subs. Allow \<in> set sub"
  shows "snd (onConnectionAttempt (Some s) now subs w) = None \<and>
         \<not> isDenied (connectionRequestArgs (server (fst (onConnectionAttempt (Some s) now subs w)))) \<and>
         live (fst (onConnectionAttempt (Some s) now subs w)) = live w @ [length (heap w)] \<and>
         heap (fst (onConnectionAttempt (Some s) now subs w)) = heap w @
           [\<lparr>sessionServer = Some SessionServerRef, messageHandler = None,
             credentials = None, socket = Some s, player = None, keepAlive = now\<rparr>] \<and>
         trace (fst (onConnectionAttempt (Some s) now subs w)) = trace w @
           [Log ''detected connection attempt'',
            SocketOn s ''close'' (length (heap w)), SocketOn s ''data'' (length (heap w)),
            Fire CONNECTION_REQUEST ArgsPayload,
            Log ''connection attempt approved'',
            Fire CONNECT (ConnPayload (length (heap w)))]"
proof -
  let ?a1 = "\<lparr>priv_isAllowed = False, priv_isDenied = False,
              connection = Some (length (heap w)), error = SERVER_FULL\<rparr>"
  from assms(1) have no_deny: "\<forall>x. Deny x \<notin> set (concat subs)" by auto
  from assms(2) have some_allow: "Allow \<in> set (concat subs)" by auto
  have fired: "fire_request subs ?a1 = (?a1\<lparr>priv_isAllowed := True\<rparr>, None)"
    unfolding fire_request_def using deliver_allow_only [OF no_deny, of ?a1] some_allow by simp
  have ok: "\<not> isDenied (?a1\<lparr>priv_isAllowed := True\<rparr>\<lparr>connection := None\<rparr>)"
    by (simp add: isDenied_def)
  show ?thesis
    by (simp add: attempt_approved [OF initialize_bound fired ok] live_def isDenied_def)
qed

theorem allow_without_deny_is_admitted_witness:
  "snd (onConnectionAttempt (Some 7) 1000 [[], [Allow], []] init) = None \<and>
   live (fst (onConnectionAttempt (Some 7) 1000 [[], [Allow], []] init)) = [0] \<and>
   heap (fst (onConnectionAttempt (Some 7) 1000 [[], [Allow], []] init)) =
     [\<lparr>sessionServer = Some SessionServerRef, messageHandler = None,
       credentials = None, socket = Some 7, player = None, keepAlive = 1000\<rparr>] \<and>
   trace (fst (onConnectionAttempt (Some 7) 1000 [[], [Allow], []] init)) =
     [Log ''detected connection attempt'',
      SocketOn 7 ''close'' 0, SocketOn 7 ''data'' 0,
      Fire CONNECTION_REQUEST ArgsPayload,
      Log ''connection attempt approved'',
      Fire CONNECT (ConnPayload 0)]"
  using allow_without_deny_is_admitted [of "[[], [Allow], []]" 7 1000 init]
  by (simp add: init_def live_def SessionServer_new_def)

section \<open>Removal\<close>

text \<open>
  C5.  \<open>removeConnection(null)\<close> throws and changes nothing.  For a \<open>Connection\<close> that is
  not in the live set the call returns normally, writes one line on the console and
  fires nothing; the live set is unchanged.  For a \<open>Connection\<close> in the live set the
  call removes its first occurrence (its only one when the live set has no
  duplicates), leaves every other \<open>Connection\<close> in place and fires one \<open>DISCONNECT\<close>
  notification carrying it.
\<close>

theorem removeConnection_contract:
  "removeConnection None w =
     (w, Some (Error ''SessionServer.removeConnection - No connection was specified.'')) \<and>
   (c \<notin> set (live w) \<longrightarrow>
      removeConnection (Some c) w =
        (w\<lparr>trace := trace w @
             [Log ''SessionServer.removeConnection - Specified connection could not be found.'']\<rparr>,
         None)) \<and>
   (c \<in> set (live w) \<longrightarrow>
      removeConnection (Some c) w =
        (w\<lparr>server := (server w)\<lparr>connectionList := remove1 c (live w)\<rparr>,
            trace := trace w @ [Fire DISCONNECT (ConnPayload c)]\<rparr>,
         None)) \<and>
   (c \<in> set (live w) \<and> distinct (live w) \<longrightarrow>
      set (live (fst (removeConnection (Some c) w))) = set (live w) - {c})"
  by (simp add: removeConnection_null removeConnection_absent removeConnection_present emit_def live_def)

theorem removeConnection_contract_witness:
  "removeConnection (Some 5) (run [Attempt (Some 7) 1000 [[Allow]], Attempt (Some 8) 1001 [[Allow]]] init) =
     ((run [Attempt (Some 7) 1000 [[Allow]], Attempt (Some 8) 1001 [[Allow]]] init)
        \<lparr>trace := trace (run [Attempt (Some 7) 1000 [[Allow]], Attempt (Some 8) 1001 [[Allow]]] init) @
           [Log ''SessionServer.removeConnection - Specified connection could not be found.'']\<rparr>,
      None) \<and>
   live (fst (removeConnection (Some 0)
       (run [Attempt (Some 7) 1000 [[Allow]], Attempt (Some 8) 1001 [[Allow]]] init))) = [1] \<and>
   set (live (fst (removeConnection (Some 0)
       (run [Attempt (Some 7) 1000 [[Allow]], Attempt (Some 8) 1001 [[Allow]]] init)))) = {1} \<and>
   trace (fst (removeConnection (Some 0)
       (run [Attempt (Some 7) 1000 [[Allow]], Attempt (Some 8) 1001 [[Allow]]] init))) =
     trace (run [Attempt (Some 7) 1000 [[Allow]], Attempt (Some 8) 1001 [[Allow]]] init) @
       [Fire DISCONNECT (ConnPayload 0)]"
proof -
  define w where "w = run [Attempt (Some 7) 1000 [[Allow]], Attempt (Some 8) 1001 [[Allow]]] init"
  have l: "live w = [0, 1]"
    by (simp add: w_def onConnectionAttempt_def Connection_new_def initialize_def fire_request_def
        allow_def isDenied_def emit_def Let_def init_def SessionServer_new_def live_def)
  have absent: "5 \<notin> set (live w)" and present: "0 \<in> set (live w)" and nodup: "distinct (live w)"
    by (simp_all add: l)
  from removeConnection_contract [of w 5] absent
  have a: "removeConnection (Some 5) w =
     (w\<lparr>trace := trace w @
        [Log ''SessionServer.removeConnection - Specified connection could not be found.'']\<rparr>, None)"
    by blast
  from removeConnection_contract [of w 0] present
  have p: "removeConnection (Some 0) w =
     (w\<lparr>server := (server w)\<lparr>connectionList := remove1 0 (live w)\<rparr>,
          trace := trace w @ [Fire DISCONNECT (ConnPayload 0)]\<rparr>, None)"
    by blast
  from removeConnection_contract [of w 0] present nodup
  have "set (live (fst (removeConnection (Some 0) w))) = set (live w) - {0}"
    by blast
  then have s: "set (live (fst (removeConnection (Some 0) w))) = {1}"
    by (simp add: l)
  have r: "live (fst (removeConnection (Some 0) w)) = [1]"
    unfolding p by (simp add: live_def l [unfolded live_def])
  have t: "trace (fst (removeConnection (Some 0) w)) = trace w @ [Fire DISCONNECT (ConnPayload 0)]"
    unfolding p by simp
  from a r s t show ?thesis
    unfolding w_def by blast
qed

section \<open>Properties of Connection\<close>

text \<open>
  C6, as stated, fails: \<open>disconnect\<close> has no check of its argument.  On a \<open>Connection\<close>
  whose socket field is already \<open>null\<close> (here after a first \<open>disconnect\<close>) the call
  \<open>disconnect(null)\<close> returns normally and changes nothing.
\<close>

theorem disconnect_null_after_disconnect_counterexample:
  "disconnect_at 0 None (run [Attempt (Some 7) 1000 [[Allow]], Disconnect 0 (Some SESSION_TERMINATED)] init) =
     (run [Attempt (Some 7) 1000 [[Allow]], Disconnect 0 (Some SESSION_TERMINATED)] init, None)"
  by (simp add: disconnect_at_def disconnect_def onConnectionAttempt_def Connection_new_def
      initialize_def fire_request_def allow_def isDenied_def emit_def Let_def init_def
      SessionServer_new_def)

text \<open>
  C6, amended.  While the socket is present, \<open>disconnect\<close> with a \<open>null\<close> or omitted
  argument throws (the \<open>TypeError\<close> of reading \<open>err.id\<close>) before the socket is closed
  and before any field is written.  Once the socket field is \<open>null\<close> the call returns
  normally, whatever the argument, and changes nothing.  With a descriptor and a
  present socket it closes the socket with the descriptor's id and message and clears
  the socket and the registry back-reference.
\<close>

theorem disconnect_null_argument:
  "(socket c \<noteq> None \<longrightarrow> disconnect None c = Inl TypeError) \<and>
   (socket c = None \<longrightarrow> disconnect err c = Inr (c, [])) \<and>
   (socket c = Some s \<longrightarrow>
      disconnect (Some e) c =
        Inr (c\<lparr>sessionServer := None, socket := None\<rparr>, [SocketClose s (id_d e) (msg e)]))"
  by (auto simp: disconnect_def)

theorem disconnect_null_argument_witness:
  "disconnect None
     \<lparr>sessionServer = Some SessionServerRef, messageHandler = None, credentials = None,
      socket = Some 7, player = None, keepAlive = 1000\<rparr> = Inl TypeError \<and>
   disconnect None
     \<lparr>sessionServer = None, messageHandler = None, credentials = None,
      socket = None, player = None, keepAlive = 1000\<rparr> =
     Inr (\<lparr>sessionServer = None, messageHandler = None, credentials = None,
           socket = None, player = None, keepAlive = 1000\<rparr>, []) \<and>
   disconnect (Some SESSION_TERMINATED)
     \<lparr>sessionServer = Some SessionServerRef, messageHandler = None, credentials = None,
      socket = Some 7, player = None, keepAlive = 1000\<rparr> =
     Inr (\<lparr>sessionServer = None, messageHandler = None, credentials = None,
           socket = None, player = None, keepAlive = 1000\<rparr>,
          [SocketClose 7 101 ''Session Terminated''])"
  using disconnect_null_argument
    [of "\<lparr>sessionServer = Some SessionServerRef, messageHandler = None, credentials = None,
          socket = Some 7, player = None, keepAlive = 1000\<rparr>" None 7 SESSION_TERMINATED]
    disconnect_null_argument
    [of "\<lparr>sessionServer = None, messageHandler = None, credentials = None,
          socket = None, player = None, keepAlive = 1000\<rparr>" None 7 SESSION_TERMINATED]
  by (simp add: SESSION_TERMINATED_def)

text \<open>
  C7.  \<open>disconnect\<close> is idempotent.  A first call with a descriptor throws nothing, and
  a second call on the same \<open>Connection\<close>, with any argument, returns normally and
  leaves the whole state as the first call left it: the \<open>Connection\<close>, the registry
  and the effects, so no second socket close and no \<open>DISCONNECT\<close> notification.  The
  same holds of the \<open>Connection\<close> object taken alone.
\<close>

theorem disconnect_idempotent:
  "snd (disconnect_at this (Some e1) w) = None \<and>
   disconnect_at this err2 (fst (disconnect_at this (Some e1) w)) =
     (fst (disconnect_at this (Some e1) w), None) \<and>
   (disconnect (Some e1) c = Inr (c', es) \<longrightarrow> disconnect err2 c' = Inr (c', []))"
  by (auto simp: disconnect_at_def disconnect_def emit_def split: option.splits)

theorem disconnect_idempotent_witness:
  "snd (disconnect_at 0 (Some SESSION_TERMINATED) (run [Attempt (Some 7) 1000 [[Allow]]] init)) = None \<and>
   disconnect_at 0 (Some SERVER_FULL)
     (fst (disconnect_at 0 (Some SESSION_TERMINATED) (run [Attempt (Some 7) 1000 [[Allow]]] init))) =
     (fst (disconnect_at 0 (Some SESSION_TERMINATED) (run [Attempt (Some 7) 1000 [[Allow]]] init)), None) \<and>
   disconnect (Some SERVER_FULL)
     \<lparr>sessionServer = None, messageHandler = None, credentials = None,
      socket = None, player = None, keepAlive = 1000\<rparr> =
     Inr (\<lparr>sessionServer = None, messageHandler = None, credentials = None,
           socket = None, player = None, keepAlive = 1000\<rparr>, [])"
proof -
  have first: "disconnect (Some SESSION_TERMINATED)
     \<lparr>sessionServer = Some SessionServerRef, messageHandler = None, credentials = None,
      socket = Some 7, player = None, keepAlive = 1000\<rparr> =
     Inr (\<lparr>sessionServer = None, messageHandler = None, credentials = None,
           socket = None, player = None, keepAlive = 1000\<rparr>,
          [SocketClose 7 101 ''Session Terminated''])"
    by (simp add: disconnect_def SESSION_TERMINATED_def)
  from disconnect_idempotent
    [of 0 SESSION_TERMINATED "run [Attempt (Some 7) 1000 [[Allow]]] init" "Some SERVER_FULL"
        "\<lparr>sessionServer = Some SessionServerRef, messageHandler = None, credentials = None,
          socket = Some 7, player = None, keepAlive = 1000\<rparr>"
        "\<lparr>sessionServer = None, messageHandler = None, credentials = None,
          socket = None, player = None, keepAlive = 1000\<rparr>"
        "[SocketClose 7 101 ''Session Terminated'']"] first
  show ?thesis by blast
qed



text \<open>
  C9.  On inbound data a \<open>Connection\<close> with a registered message handler \<open>h\<close> calls
  \<open>h(this, parsedData)\<close>, where \<open>parsedData\<close> is what \<open>JSON.parse\<close> made of the data
  (when \<open>JSON.parse\<close> throws, the exception leaves the method and \<open>h\<close> is not called).
  A \<open>Connection\<close> with no handler, as every \<open>Connection\<close> is after construction, makes
  no call and throws nothing; the method writes no field in either case.
\<close>

theorem onReceiveData_dispatch:
  "onReceiveData JSON_parse raw this (onMessage (Some h) c) =
     (case JSON_parse raw of
        None \<Rightarrow> Inl SyntaxError
      | Some parsedData \<Rightarrow> Inr (Some (h, this, parsedData))) \<and>
   (messageHandler c = Some h \<and> JSON_parse raw = Some parsedData \<longrightarrow>
      onReceiveData JSON_parse raw this c = Inr (Some (h, this, parsedData))) \<and>
   (messageHandler c = None \<longrightarrow> onReceiveData JSON_parse raw this c = Inr None) \<and>
   (Connection_new srv so now this = Inr (fresh, es) \<longrightarrow>
      onReceiveData JSON_parse raw this fresh = Inr None)"
  by (auto simp: onReceiveData_def onMessage_def Connection_new_def split: option.splits)

theorem onReceiveData_dispatch_witness:
  "onReceiveData (\<lambda>raw. if raw = ''1'' then Some (1 :: int) else None) ''1'' 0
     (onMessage (Some 3)
        \<lparr>sessionServer = Some SessionServerRef, messageHandler = None, credentials = None,
         socket = Some 7, player = None, keepAlive = 1000\<rparr>) = Inr (Some (3, 0, 1)) \<and>
   onReceiveData (\<lambda>raw. if raw = ''1'' then Some (1 :: int) else None) ''{'' 0
     (onMessage (Some 3)
        \<lparr>sessionServer = Some SessionServerRef, messageHandler = None, credentials = None,
         socket = Some 7, player = None, keepAlive = 1000\<rparr>) = Inl SyntaxError \<and>
   onReceiveData (\<lambda>raw. if raw = ''1'' then Some (1 :: int) else None) ''1'' 0
     \<lparr>sessionServer = Some SessionServerRef, messageHandler = Some 3, credentials = None,
      socket = Some 7, player = None, keepAlive = 1000\<rparr> = Inr (Some (3, 0, 1)) \<and>
   onReceiveData (\<lambda>raw. if raw = ''1'' then Some (1 :: int) else None) ''1'' 0
     \<lparr>sessionServer = Some SessionServerRef, messageHandler = None, credentials = None,
      socket = Some 7, player = None, keepAlive = 1000\<rparr> = Inr None"
proof -
  let ?c = "\<lparr>sessionServer = Some SessionServerRef, messageHandler = None, credentials = None,
      socket = Some 7, player = None, keepAlive = 1000\<rparr>"
  let ?d = "\<lparr>sessionServer = Some SessionServerRef, messageHandler = Some 3, credentials = None,
      socket = Some 7, player = None, keepAlive = 1000\<rparr>"
  let ?p = "\<lambda>raw. if raw = ''1'' then Some (1 :: int) else None"
  have made: "Connection_new (Some SessionServerRef) (Some 7) 1000 0 =
      Inr (?c, [SocketOn 7 ''close'' 0, SocketOn 7 ''data'' 0])"
    by (simp add: Connection_new_def)
  have parsed: "?p ''1'' = Some 1" and unparsed: "?p ''{'' = None"
    and reg: "messageHandler ?d = Some 3" and unreg: "messageHandler ?c = None"
    by simp_all
  from onReceiveData_dispatch [where JSON_parse = ?p and raw = "''1''" and this = 0 and h = 3 and c = ?c]
    parsed
  have a: "onReceiveData ?p ''1'' 0 (onMessage (Some 3) ?c) = Inr (Some (3, 0, 1))"
    by simp
  from onReceiveData_dispatch [where JSON_parse = ?p and raw = "''{''" and this = 0 and h = 3 and c = ?c]
    unparsed
  have b: "onReceiveData ?p ''{'' 0 (onMessage (Some 3) ?c) = Inl SyntaxError"
    by simp
  from onReceiveData_dispatch [where JSON_parse = ?p and raw = "''1''" and this = 0 and h = 3 and c = ?d
      and parsedData = 1] parsed reg
  have c: "onReceiveData ?p ''1'' 0 ?d = Inr (Some (3, 0, 1))"
    by blast
  from onReceiveData_dispatch [where JSON_parse = ?p and raw = "''1''" and this = 0 and c = ?c
      and srv = "Some SessionServerRef" and so = "Some 7" and now = 1000 and fresh = ?c
      and es = "[SocketOn 7 ''close'' 0, SocketOn 7 ''data'' 0]"] unreg made
  have d: "onReceiveData ?p ''1'' 0 ?c = Inr None"
    by blast
  from a b c d show ?thesis by blast
qed

text \<open>
  C10.  The constructor throws when the session server argument is \<open>null\<close>, and when
  the socket argument is \<open>null\<close>.  Whenever it returns a \<open>Connection\<close>, both arguments
  were present, the object holds them as its registry back-reference and its socket,
  and its keepalive timestamp is the time of construction.
\<close>

theorem Connection_new_checks:
  "Connection_new None so now this =
     Inl (Error ''Cannot create connection without a valid session server object.'') \<and>
   Connection_new (Some sv) None now this =
     Inl (Error ''Cannot create connection without a valid socket.'') \<and>
   Connection_new (Some sv) (Some s) now this =
     Inr (\<lparr>sessionServer = Some sv, messageHandler = None, credentials = None,
           socket = Some s, player = None, keepAlive = now\<rparr>,
          [SocketOn s ''close'' this, SocketOn s ''data'' this]) \<and>
   (Connection_new srv so now this = Inr (c, es) \<longrightarrow>
      srv \<noteq> None \<and> so \<noteq> None \<and> sessionServer c = srv \<and> socket c = so \<and> keepAlive c = now)"
  by (auto simp: Connection_new_def split: option.splits)

theorem Connection_new_checks_witness:
  "Connection_new None (Some 7) 1000 0 =
     Inl (Error ''Cannot create connection without a valid session server object.'') \<and>
   Connection_new (Some SessionServerRef) None 1000 0 =
     Inl (Error ''Cannot create connection without a valid socket.'') \<and>
   Connection_new (Some SessionServerRef) (Some 7) 1000 0 =
     Inr (\<lparr>sessionServer = Some SessionServerRef, messageHandler = None, credentials = None,
           socket = Some 7, player = None, keepAlive = 1000\<rparr>,
          [SocketOn 7 ''close'' 0, SocketOn 7 ''data'' 0]) \<and>
   sessionServer \<lparr>sessionServer = Some SessionServerRef, messageHandler = None, credentials = None,
           socket = Some 7, player = None, keepAlive = 1000\<rparr> = Some SessionServerRef \<and>
   socket \<lparr>sessionServer = Some SessionServerRef, messageHandler = None, credentials = None,
           socket = Some 7, player = None, keepAlive = 1000\<rparr> = Some 7 \<and>
   keepAlive \<lparr>sessionServer = Some SessionServerRef, messageHandler = None, credentials = None,
           socket = Some 7, player = None, keepAlive = 1000\<rparr> = 1000"
proof -
  let ?c = "\<lparr>sessionServer = Some SessionServerRef, messageHandler = None, credentials = None,
      socket = Some 7, player = None, keepAlive = 1000\<rparr>"
  note facts = Connection_new_checks [where so = "Some 7" and now = 1000 and this = 0
      and sv = SessionServerRef and s = 7 and srv = "Some SessionServerRef" and c = ?c
      and es = "[SocketOn 7 ''close'' 0, SocketOn 7 ''data'' 0]"]
  note nosock = Connection_new_checks [where so = None and now = 1000 and this = 0
      and sv = SessionServerRef and s = 7 and srv = "Some SessionServerRef" and c = ?c
      and es = "[SocketOn 7 ''close'' 0, SocketOn 7 ''data'' 0]"]
  from facts have made: "Connection_new (Some SessionServerRef) (Some 7) 1000 0 =
      Inr (?c, [SocketOn 7 ''close'' 0, SocketOn 7 ''data'' 0])"
    by blast
  from facts made have held: "sessionServer ?c = Some SessionServerRef \<and> socket ?c = Some 7 \<and> keepAlive ?c = 1000"
    by blast
  from facts nosock made held show ?thesis by blast
qed

section \<open>The registry invariant\<close>

lemma connect_fired_emit:
  "connect_fired (emit es w) c = (connect_fired w c \<or> Fire CONNECT (ConnPayload c) \<in> set es)"
  by (auto simp: connect_fired_def emit_def)

lemma live_emit: "live (emit es w) = live w"
  by (simp add: live_def emit_def)

lemma heap_emit: "heap (emit es w) = heap w"
  by (simp add: emit_def)

lemma attempt_shape:
  "(\<exists>es. onConnectionAttempt so now subs w = (emit es w, Some (Error ''Cannot create connection without a valid socket.''))
         \<and> (\<forall>c. Fire CONNECT (ConnPayload c) \<notin> set es)
         \<and> (\<forall>c. Fire DISCONNECT (ConnPayload c) \<notin> set es)) \<or>
   (\<exists>s a es r. so = Some s \<and>
        onConnectionAttempt so now subs w =
          (emit es (w\<lparr>server := (server w)\<lparr>connectionRequestArgs := a\<rparr>,
                      heap := heap w @ [\<lparr>sessionServer = Some SessionServerRef, messageHandler = None,
                           credentials = None, socket = Some s, player = None, keepAlive = now\<rparr>]\<rparr>), r)
         \<and> (\<forall>c. Fire CONNECT (ConnPayload c) \<notin> set es)
         \<and> (\<forall>c. Fire DISCONNECT (ConnPayload c) \<notin> set es)) \<or>
   (\<exists>s a es. so = Some s \<and>
        onConnectionAttempt so now subs w =
          (emit es (w\<lparr>server := (server w)\<lparr>connectionRequestArgs := a,
                                             connectionList := connectionList (server w) @ [length (heap w)]\<rparr>,
                      heap := heap w @ [\<lparr>sessionServer = Some SessionServerRef, messageHandler = None,
                           credentials = None, socket = Some s, player = None, keepAlive = now\<rparr>]\<rparr>), None)
         \<and> (\<forall>c. (Fire CONNECT (ConnPayload c) \<in> set es) = (c = length (heap w)))
         \<and> (\<forall>c. Fire DISCONNECT (ConnPayload c) \<notin> set es))"
proof (cases so)
  case None
  then have "onConnectionAttempt so now subs w =
      (emit [Log ''detected connection attempt''] w, Some (Error ''Cannot create connection without a valid socket.''))"
    by (simp add: onConnectionAttempt_def Connection_new_def Let_def emit_def)
  then show ?thesis by auto
next
  case (Some s)
  let ?a1 = "\<lparr>priv_isAllowed = False, priv_isDenied = False,
              connection = Some (length (heap w)), error = SERVER_FULL\<rparr>"
  obtain a2 thrown where fired: "fire_request subs ?a1 = (a2, thrown)"
    by (cases "fire_request subs ?a1") auto
  show ?thesis
  proof (cases thrown)
    case (Some e)
    with fired \<open>so = Some s\<close> have "onConnectionAttempt so now subs w =
       (emit [Log ''detected connection attempt'',
           SocketOn s ''close'' (length (heap w)), SocketOn s ''data'' (length (heap w)),
           Fire CONNECTION_REQUEST ArgsPayload]
         (w\<lparr>server := (server w)\<lparr>connectionRequestArgs := a2\<rparr>,
            heap := heap w @ [\<lparr>sessionServer = Some SessionServerRef, messageHandler = None,
                           credentials = None, socket = Some s, player = None, keepAlive = now\<rparr>]\<rparr>), Some e)"
      by (simp add: onConnectionAttempt_def Connection_new_def Let_def emit_def initialize_bound)
    with \<open>so = Some s\<close> show ?thesis by (intro disjI2 disjI1 exI conjI) auto
  next
    case None
    note unthrown = None
    show ?thesis
    proof (cases "isDenied (a2\<lparr>connection := None\<rparr>)")
      case True
      from attempt_denied [OF initialize_bound fired [unfolded unthrown] True, of s now]
      have "onConnectionAttempt so now subs w =
       (emit [Log ''detected connection attempt'',
           SocketOn s ''close'' (length (heap w)), SocketOn s ''data'' (length (heap w)),
           Fire CONNECTION_REQUEST ArgsPayload,
           Log (''connection attempt denied: '' @ msg (error a2)),
           SocketClose s (id_d (error a2)) (msg (error a2))]
         (w\<lparr>server := (server w)\<lparr>connectionRequestArgs := a2\<lparr>connection := None\<rparr>\<rparr>,
            heap := heap w @ [\<lparr>sessionServer = Some SessionServerRef, messageHandler = None,
                           credentials = None, socket = Some s, player = None, keepAlive = now\<rparr>]\<rparr>), None)"
        using \<open>so = Some s\<close> by (simp add: emit_def)
      with \<open>so = Some s\<close> show ?thesis by (intro disjI2 disjI1 exI conjI) auto
    next
      case False
      from attempt_approved [OF initialize_bound fired [unfolded unthrown] False, of s now]
      have "onConnectionAttempt so now subs w =
       (emit [Log ''detected connection attempt'',
           SocketOn s ''close'' (length (heap w)), SocketOn s ''data'' (length (heap w)),
           Fire CONNECTION_REQUEST ArgsPayload,
           Log ''connection attempt approved'',
           Fire CONNECT (ConnPayload (length (heap w)))]
         (w\<lparr>server := (server w)\<lparr>connectionRequestArgs := a2\<lparr>connection := None\<rparr>,
                               connectionList := connectionList (server w) @ [length (heap w)]\<rparr>,
            heap := heap w @ [\<lparr>sessionServer = Some SessionServerRef, messageHandler = None,
                           credentials = None, socket = Some s, player = None, keepAlive = now\<rparr>]\<rparr>), None)"
        using \<open>so = Some s\<close> by (simp add: emit_def)
      with \<open>so = Some s\<close> show ?thesis by (intro disjI2 exI conjI) auto
    qed
  qed
qed

lemma connect_fired_update [simp]:
  "connect_fired (w\<lparr>server := sv\<rparr>) c = connect_fired w c"
  "connect_fired (w\<lparr>heap := h\<rparr>) c = connect_fired w c"
  by (simp_all add: connect_fired_def)

lemma live_update [simp]:
  "live (w\<lparr>heap := h\<rparr>) = live w"
  "live (w\<lparr>server := sv\<rparr>) = connectionList sv"
  by (simp_all add: live_def)

lemma removed_emit:
  "removed (emit es w) c = (removed w c \<or> Fire DISCONNECT (ConnPayload c) \<in> set es)"
  by (auto simp: removed_def emit_def)

lemma removed_update [simp]:
  "removed (w\<lparr>server := sv\<rparr>) c = removed w c"
  "removed (w\<lparr>heap := h\<rparr>) c = removed w c"
  by (simp_all add: removed_def)

lemma emit_Nil: "emit [] w = w"
  by (simp add: emit_def)

lemma attempt_preserves:
  assumes inv: "registry_in_step w" and coh: "coherent w"
  shows "registry_in_step (fst (onConnectionAttempt so now subs w)) \<and>
         coherent (fst (onConnectionAttempt so now subs w))"
proof -
  from coh have fresh: "length (heap w) \<notin> set (live w)" "\<not> connect_fired w (length (heap w))"
      "\<not> removed w (length (heap w))"
    by (auto simp: coherent_def)
  consider
    (ctor) es where "onConnectionAttempt so now subs w =
        (emit es w, Some (Error ''Cannot create connection without a valid socket.''))"
      "\<forall>c. Fire CONNECT (ConnPayload c) \<notin> set es" "\<forall>c. Fire DISCONNECT (ConnPayload c) \<notin> set es"
  | (refused) s a es r where "onConnectionAttempt so now subs w =
          (emit es (w\<lparr>server := (server w)\<lparr>connectionRequestArgs := a\<rparr>,
                      heap := heap w @ [\<lparr>sessionServer = Some SessionServerRef, messageHandler = None,
                           credentials = None, socket = Some s, player = None, keepAlive = now\<rparr>]\<rparr>), r)"
      "\<forall>c. Fire CONNECT (ConnPayload c) \<notin> set es" "\<forall>c. Fire DISCONNECT (ConnPayload c) \<notin> set es"
  | (admitted) s a es where "onConnectionAttempt so now subs w =
          (emit es (w\<lparr>server := (server w)\<lparr>connectionRequestArgs := a,
                                             connectionList := connectionList (server w) @ [length (heap w)]\<rparr>,
                      heap := heap w @ [\<lparr>sessionServer = Some SessionServerRef, messageHandler = None,
                           credentials = None, socket = Some s, player = None, keepAlive = now\<rparr>]\<rparr>), None)"
      "\<forall>c. (Fire CONNECT (ConnPayload c) \<in> set es) = (c = length (heap w))"
      "\<forall>c. Fire DISCONNECT (ConnPayload c) \<notin> set es"
    using attempt_shape [of so now subs w] by blast
  then show ?thesis
  proof cases
    case ctor
    with inv coh show ?thesis
      by (simp add: registry_in_step_def coherent_def connect_fired_emit removed_emit
          live_emit heap_emit)
  next
    case refused
    have l: "live (fst (onConnectionAttempt so now subs w)) = live w"
      by (simp add: refused(1) emit_def live_def)
    have a: "\<And>c. connect_fired (fst (onConnectionAttempt so now subs w)) c = connect_fired w c"
      by (simp add: refused connect_fired_emit)
    have r: "\<And>c. removed (fst (onConnectionAttempt so now subs w)) c = removed w c"
      by (simp add: refused removed_emit)
    have h: "heap (fst (onConnectionAttempt so now subs w)) = heap w @
        [\<lparr>sessionServer = Some SessionServerRef, messageHandler = None,
          credentials = None, socket = Some s, player = None, keepAlive = now\<rparr>]"
      by (simp add: refused(1) heap_emit)
    from inv fresh have "registry_in_step (fst (onConnectionAttempt so now subs w))"
      unfolding registry_in_step_def l a r h
      by (auto simp: nth_append less_Suc_eq)
    moreover from coh have "coherent (fst (onConnectionAttempt so now subs w))"
      unfolding coherent_def l a r h
      by (auto simp: nth_append less_Suc_eq)
    ultimately show ?thesis ..
  next
    case admitted
    have l: "live (fst (onConnectionAttempt so now subs w)) = live w @ [length (heap w)]"
      by (simp add: admitted(1) emit_def live_def)
    have a: "\<And>c. connect_fired (fst (onConnectionAttempt so now subs w)) c =
        (connect_fired w c \<or> c = length (heap w))"
      by (simp add: admitted connect_fired_emit)
    have r: "\<And>c. removed (fst (onConnectionAttempt so now subs w)) c = removed w c"
      by (simp add: admitted removed_emit)
    have h: "heap (fst (onConnectionAttempt so now subs w)) = heap w @
        [\<lparr>sessionServer = Some SessionServerRef, messageHandler = None,
          credentials = None, socket = Some s, player = None, keepAlive = now\<rparr>]"
      by (simp add: admitted(1) heap_emit)
    from inv fresh have "registry_in_step (fst (onConnectionAttempt so now subs w))"
      unfolding registry_in_step_def l a r h
      by (auto simp: nth_append less_Suc_eq)
    moreover from coh fresh have "coherent (fst (onConnectionAttempt so now subs w))"
      unfolding coherent_def l a r h
      by (auto simp: nth_append less_Suc_eq)
    ultimately show ?thesis ..
  qed
qed

lemma removal_preserves:
  assumes inv: "registry_in_step w" and coh: "coherent w"
    and l: "live w' = remove1 this (live w)"
    and a: "\<And>c. connect_fired w' c = connect_fired w c"
    and r: "\<And>c. c \<noteq> this \<Longrightarrow> removed w' c = removed w c"
    and ra: "removed w' this \<Longrightarrow> this < length (heap w)"
    and h: "heap w' = (heap w)[this := x]"
    and x: "socket x = None \<or> removed w' this"
  shows "registry_in_step w' \<and> coherent w'"
proof
  from coh have d: "distinct (live w)" by (simp add: coherent_def)
  then have mem: "\<And>c. (c \<in> set (live w')) = (c \<in> set (live w) \<and> c \<noteq> this)"
    by (auto simp: l)
  show "registry_in_step w'"
    unfolding registry_in_step_def
  proof (intro allI impI)
    fix c
    assume "c < length (heap w')"
    then have c: "c < length (heap w)" by (simp add: h)
    show "(c \<in> set (live w')) =
        (connect_fired w' c \<and> \<not> removed w' c \<and> socket (heap w' ! c) \<noteq> None)"
    proof (cases "c = this")
      case True
      with c x show ?thesis by (auto simp: mem h)
    next
      case False
      with inv c show ?thesis by (simp add: mem a r h registry_in_step_def)
    qed
  qed
  show "coherent w'"
    unfolding coherent_def
  proof (intro conjI ballI allI impI)
    from d show "distinct (live w')" by (simp add: l)
  next
    fix c
    assume "c \<in> set (live w')"
    then have "c \<in> set (live w)" and "c \<noteq> this" by (simp_all add: mem)
    with coh show "c < length (heap w')" and "sessionServer (heap w' ! c) \<noteq> None"
      by (auto simp: coherent_def h)
  next
    fix c
    assume "connect_fired w' c"
    with coh show "c < length (heap w')" by (simp add: a h coherent_def)
  next
    fix c
    assume rem: "removed w' c"
    show "c < length (heap w')"
    proof (cases "c = this")
      case True
      with rem ra show ?thesis by (simp add: h)
    next
      case False
      with rem coh show ?thesis by (simp add: r h coherent_def)
    qed
  qed
qed

lemma remove_preserves:
  assumes inv: "registry_in_step w" and coh: "coherent w"
  shows "registry_in_step (fst (removeConnection conn w)) \<and>
         coherent (fst (removeConnection conn w))"
proof (cases conn)
  case None
  with inv coh show ?thesis by (simp add: removeConnection_null)
next
  case (Some c)
  show ?thesis
  proof (cases "c \<in> set (live w)")
    case False
    with inv coh Some show ?thesis
      by (simp add: removeConnection_absent registry_in_step_def coherent_def
          connect_fired_emit removed_emit live_emit heap_emit)
  next
    case True
    then have res: "fst (removeConnection conn w) =
        emit [Fire DISCONNECT (ConnPayload c)]
          (w\<lparr>server := (server w)\<lparr>connectionList := remove1 c (live w)\<rparr>\<rparr>)"
      by (simp add: Some removeConnection_present)
    show ?thesis
    proof (rule removal_preserves [OF inv coh, where this = c and x = "heap w ! c"])
      show "live (fst (removeConnection conn w)) = remove1 c (live w)"
        by (simp add: res emit_def live_def)
      show "connect_fired (fst (removeConnection conn w)) d = connect_fired w d" for d
        by (simp add: res connect_fired_emit)
      show "removed (fst (removeConnection conn w)) d = removed w d" if "d \<noteq> c" for d
        using that by (simp add: res removed_emit)
      from True coh show "c < length (heap w)"
        by (simp add: coherent_def)
      show "heap (fst (removeConnection conn w)) = (heap w)[c := heap w ! c]"
        by (simp add: res heap_emit)
      show "socket (heap w ! c) = None \<or> removed (fst (removeConnection conn w)) c"
        by (simp add: res removed_emit)
    qed
  qed
qed

lemma disconnect_at_shape:
  "fst (disconnect_at this err w) = w \<or>
   (\<exists>s i m. this < length (heap w) \<and> socket (heap w ! this) = Some s \<and>
      fst (disconnect_at this err w) =
         emit [SocketClose s i m]
           (w\<lparr>heap := (heap w)[this := (heap w ! this)\<lparr>sessionServer := None, socket := None\<rparr>]\<rparr>))"
  by (cases "this < length (heap w)"; cases "socket (heap w ! this)"; cases err)
     (auto simp: disconnect_at_def disconnect_def emit_Nil)

lemma disconnect_preserves:
  assumes inv: "registry_in_step w" and coh: "coherent w"
    and adm: "admissible w (Disconnect this err)"
  shows "registry_in_step (fst (disconnect_at this err w)) \<and>
         coherent (fst (disconnect_at this err w))"
proof -
  from adm have out: "this \<notin> set (live w)" by simp
  consider
    (same) "fst (disconnect_at this err w) = w"
  | (cleared) s i m where "this < length (heap w)" "socket (heap w ! this) = Some s"
      "fst (disconnect_at this err w) =
         emit [SocketClose s i m]
           (w\<lparr>heap := (heap w)[this := (heap w ! this)\<lparr>sessionServer := None, socket := None\<rparr>]\<rparr>)"
    using disconnect_at_shape [of this err w] by blast
  then show ?thesis
  proof cases
    case same
    with inv coh show ?thesis by simp
  next
    case cleared
    show ?thesis
    proof (rule removal_preserves [OF inv coh])
      show "live (fst (disconnect_at this err w)) = remove1 this (live w)"
        using out by (simp add: cleared(3) emit_def live_def remove1_idem)
      show "connect_fired (fst (disconnect_at this err w)) c = connect_fired w c" for c
        by (simp add: cleared(3) connect_fired_emit)
      show "removed (fst (disconnect_at this err w)) c = removed w c" for c
        by (simp add: cleared(3) removed_emit)
      from cleared(1) show "this < length (heap w)" .
      show "heap (fst (disconnect_at this err w)) =
          (heap w)[this := (heap w ! this)\<lparr>sessionServer := None, socket := None\<rparr>]"
        by (simp add: cleared(3) heap_emit)
      show "socket ((heap w ! this)\<lparr>sessionServer := None, socket := None\<rparr>) = None \<or>
          removed (fst (disconnect_at this err w)) this"
        by simp
    qed
  qed
qed

lemma close_preserves:
  assumes inv: "registry_in_step w" and coh: "coherent w"
  shows "registry_in_step (fst (onSocketClosed this w)) \<and>
         coherent (fst (onSocketClosed this w))"
proof (cases "this < length (heap w)")
  case False
  with inv coh show ?thesis by (simp add: onSocketClosed_def)
next
  case True
  define w1 where "w1 = w\<lparr>heap := (heap w)[this := (heap w ! this)\<lparr>socket := None\<rparr>]\<rparr>"
  have l1: "live w1 = live w" and a1: "\<And>c. connect_fired w1 c = connect_fired w c"
    and r1: "\<And>c. removed w1 c = removed w c"
    and h1: "heap w1 = (heap w)[this := (heap w ! this)\<lparr>socket := None\<rparr>]"
    by (simp_all add: w1_def)
  have "\<exists>es. (\<forall>c. Fire CONNECT (ConnPayload c) \<notin> set es) \<and>
      (\<forall>c. c \<noteq> this \<longrightarrow> Fire DISCONNECT (ConnPayload c) \<notin> set es) \<and>
      fst (onSocketClosed this w) =
        emit es (w1\<lparr>server := (server w1)\<lparr>connectionList := remove1 this (live w1)\<rparr>\<rparr>)"
  proof (cases "this \<in> set (live w)")
    case False
    then have same: "w1\<lparr>server := (server w1)\<lparr>connectionList := remove1 this (live w1)\<rparr>\<rparr> = w1"
      by (simp add: l1 remove1_idem) (simp add: live_def w1_def)
    from False True l1 have "fst (onSocketClosed this w) = emit [] w1 \<or>
        fst (onSocketClosed this w) =
          emit [Log ''SessionServer.removeConnection - Specified connection could not be found.''] w1"
      by (auto simp: onSocketClosed_def Let_def w1_def [symmetric] removeConnection_absent emit_Nil
          split: option.splits)
    then show ?thesis
      unfolding same
    proof
      assume "fst (onSocketClosed this w) = emit [] w1"
      then show "\<exists>es. (\<forall>c. Fire CONNECT (ConnPayload c) \<notin> set es) \<and>
          (\<forall>c. c \<noteq> this \<longrightarrow> Fire DISCONNECT (ConnPayload c) \<notin> set es) \<and>
          fst (onSocketClosed this w) = emit es w1"
        by (intro exI [of _ "[]"]) simp
    next
      assume "fst (onSocketClosed this w) =
          emit [Log ''SessionServer.removeConnection - Specified connection could not be found.''] w1"
      then show "\<exists>es. (\<forall>c. Fire CONNECT (ConnPayload c) \<notin> set es) \<and>
          (\<forall>c. c \<noteq> this \<longrightarrow> Fire DISCONNECT (ConnPayload c) \<notin> set es) \<and>
          fst (onSocketClosed this w) = emit es w1"
        by (intro exI [of _ "[Log ''SessionServer.removeConnection - Specified connection could not be found.'']"]) simp
    qed
  next
    case present: True
    with coh have "sessionServer (heap w ! this) \<noteq> None" by (auto simp: coherent_def)
    then have "fst (onSocketClosed this w) =
        emit [Fire DISCONNECT (ConnPayload this)]
          (w1\<lparr>server := (server w1)\<lparr>connectionList := remove1 this (live w1)\<rparr>\<rparr>)"
      using True present l1
      by (auto simp: onSocketClosed_def Let_def w1_def [symmetric] removeConnection_present)
    then show ?thesis
      by (intro exI [of _ "[Fire DISCONNECT (ConnPayload this)]"]) simp
  qed
  then obtain es where quiet: "\<forall>c. Fire CONNECT (ConnPayload c) \<notin> set es"
    and others: "\<forall>c. c \<noteq> this \<longrightarrow> Fire DISCONNECT (ConnPayload c) \<notin> set es"
    and res: "fst (onSocketClosed this w) =
        emit es (w1\<lparr>server := (server w1)\<lparr>connectionList := remove1 this (live w1)\<rparr>\<rparr>)"
    by blast
  show ?thesis
  proof (rule removal_preserves [OF inv coh])
    show "live (fst (onSocketClosed this w)) = remove1 this (live w)"
      by (simp add: res emit_def live_def l1 [unfolded live_def])
    show "connect_fired (fst (onSocketClosed this w)) c = connect_fired w c" for c
      by (simp add: res connect_fired_emit a1 quiet)
    show "removed (fst (onSocketClosed this w)) c = removed w c" if "c \<noteq> this" for c
      using that others by (simp add: res removed_emit r1)
    from True show "this < length (heap w)" .
    show "heap (fst (onSocketClosed this w)) = (heap w)[this := (heap w ! this)\<lparr>socket := None\<rparr>]"
      by (simp add: res heap_emit h1)
    show "socket ((heap w ! this)\<lparr>socket := None\<rparr>) = None \<or> removed (fst (onSocketClosed this w)) this"
      by simp
  qed
qed

lemma step_preserves:
  assumes "registry_in_step w" and "coherent w" and "admissible w e"
  shows "registry_in_step (step e w) \<and> coherent (step e w)"
proof (cases e)
  case (Attempt so now subs)
  with assms show ?thesis by (simp add: attempt_preserves)
next
  case (Remove conn)
  with assms show ?thesis by (simp add: remove_preserves)
next
  case (Disconnect this err)
  with assms show ?thesis by (simp add: disconnect_preserves del: admissible.simps)
next
  case (TransportClose this)
  with assms show ?thesis by (simp add: close_preserves)
qed

lemma run_preserves:
  "admissible_run w es \<Longrightarrow> registry_in_step w \<Longrightarrow> coherent w \<Longrightarrow>
   registry_in_step (run es w) \<and> coherent (run es w)"
proof (induction es arbitrary: w)
  case Nil
  then show ?case by simp
next
  case (Cons e es)
  from Cons.prems have "admissible w e" and rest: "admissible_run (step e w) es" by simp_all
  with Cons.prems have "registry_in_step (step e w) \<and> coherent (step e w)"
    by (simp add: step_preserves)
  with Cons.IH [OF rest] show ?case by simp
qed

lemma init_in_step: "registry_in_step init \<and> coherent init"
  by (simp add: registry_in_step_def coherent_def init_def live_def connect_fired_def
      removed_def SessionServer_new_def)

lemma run_allow_disconnect:
  "run [Attempt (Some 7) 1000 [[Allow]], Disconnect 0 (Some SESSION_TERMINATED)] init =
     \<lparr>server = \<lparr>connectionList = [0],
                connectionRequestArgs = \<lparr>priv_isAllowed = True, priv_isDenied = False,
                  connection = None, error = SERVER_FULL\<rparr>\<rparr>,
      heap = [\<lparr>sessionServer = None, messageHandler = None, credentials = None,
               socket = None, player = None, keepAlive = 1000\<rparr>],
      trace = [Log ''detected connection attempt'',
               SocketOn 7 ''close'' 0, SocketOn 7 ''data'' 0,
               Fire CONNECTION_REQUEST ArgsPayload,
               Log ''connection attempt approved'',
               Fire CONNECT (ConnPayload 0),
               SocketClose 7 101 ''Session Terminated'']\<rparr>"
  by (simp add: onConnectionAttempt_def Connection_new_def initialize_def fire_request_def
      allow_def isDenied_def emit_def Let_def init_def SessionServer_new_def
      disconnect_at_def disconnect_def SESSION_TERMINATED_def SERVER_FULL_def)

lemma run_allow_disconnect_close:
  "run [Attempt (Some 7) 1000 [[Allow]], Disconnect 0 (Some SESSION_TERMINATED), TransportClose 0] init =
   run [Attempt (Some 7) 1000 [[Allow]], Disconnect 0 (Some SESSION_TERMINATED)] init"
proof -
  have "run [Attempt (Some 7) 1000 [[Allow]], Disconnect 0 (Some SESSION_TERMINATED), TransportClose 0] init =
      fst (onSocketClosed 0 (run [Attempt (Some 7) 1000 [[Allow]], Disconnect 0 (Some SESSION_TERMINATED)] init))"
    by simp
  also have "\<dots> = run [Attempt (Some 7) 1000 [[Allow]], Disconnect 0 (Some SESSION_TERMINATED)] init"
    unfolding run_allow_disconnect by (simp add: onSocketClosed_def)
  finally show ?thesis .
qed

lemma run_allow_remove:
  "run [Attempt (Some 7) 1000 [[Allow]], Remove (Some 0)] init =
     \<lparr>server = \<lparr>connectionList = [],
                connectionRequestArgs = \<lparr>priv_isAllowed = True, priv_isDenied = False,
                  connection = None, error = SERVER_FULL\<rparr>\<rparr>,
      heap = [\<lparr>sessionServer = Some SessionServerRef, messageHandler = None, credentials = None,
               socket = Some 7, player = None, keepAlive = 1000\<rparr>],
      trace = [Log ''detected connection attempt'',
               SocketOn 7 ''close'' 0, SocketOn 7 ''data'' 0,
               Fire CONNECTION_REQUEST ArgsPayload,
               Log ''connection attempt approved'',
               Fire CONNECT (ConnPayload 0),
               Fire DISCONNECT (ConnPayload 0)]\<rparr>"
  by (simp add: onConnectionAttempt_def Connection_new_def initialize_def fire_request_def
      allow_def isDenied_def emit_def Let_def init_def SessionServer_new_def
      removeConnection_def splice1_def SERVER_FULL_def)

lemma attempt_connect_fired:
  "connect_fired (fst (onConnectionAttempt so now subs w)) c =
     (connect_fired w c \<or> (c = length (heap w) \<and> verdict_approved so subs w))"
proof (cases so)
  case None
  then show ?thesis
    by (simp add: onConnectionAttempt_def Connection_new_def Let_def connect_fired_emit
        verdict_approved_def)
next
  case (Some s)
  let ?a1 = "\<lparr>priv_isAllowed = False, priv_isDenied = False,
              connection = Some (length (heap w)), error = SERVER_FULL\<rparr>"
  obtain a2 thrown where fired: "fire_request subs ?a1 = (a2, thrown)"
    by (cases "fire_request subs ?a1") auto
  have same: "isDenied (a2\<lparr>connection := None\<rparr>) = isDenied a2"
    by (simp add: isDenied_def)
  show ?thesis
  proof (cases thrown)
    case (Some e)
    with fired \<open>so = Some s\<close> show ?thesis
      by (simp add: onConnectionAttempt_def Connection_new_def Let_def emit_def initialize_bound
          connect_fired_def verdict_approved_def)
  next
    case None
    note unthrown = None
    show ?thesis
    proof (cases "isDenied a2")
      case True
      then have den: "isDenied (a2\<lparr>connection := None\<rparr>)" by (simp add: same)
      from True fired unthrown \<open>so = Some s\<close> have "\<not> verdict_approved so subs w"
        by (simp add: verdict_approved_def initialize_bound)
      with \<open>so = Some s\<close> show ?thesis
        by (simp add: attempt_denied [OF initialize_bound fired [unfolded unthrown] den]
            connect_fired_def)
    next
      case False
      then have ok: "\<not> isDenied (a2\<lparr>connection := None\<rparr>)" by (simp add: same)
      from False fired unthrown \<open>so = Some s\<close> have "verdict_approved so subs w"
        by (simp add: verdict_approved_def initialize_bound)
      with \<open>so = Some s\<close> show ?thesis
        by (auto simp: attempt_approved [OF initialize_bound fired [unfolded unthrown] ok]
            connect_fired_def)
    qed
  qed
qed

lemma remove_connect_fired:
  "connect_fired (fst (removeConnection conn w)) c = connect_fired w c"
proof (cases conn)
  case None
  then show ?thesis by (simp add: removeConnection_null)
next
  case (Some d)
  then show ?thesis
    by (cases "d \<in> set (live w)")
       (simp_all add: removeConnection_absent removeConnection_present connect_fired_emit)
qed

lemma disconnect_connect_fired:
  "connect_fired (fst (disconnect_at this err w)) c = connect_fired w c"
  using disconnect_at_shape [of this err w] by (auto simp: connect_fired_emit)

lemma close_connect_fired:
  "connect_fired (fst (onSocketClosed this w)) c = connect_fired w c"
  by (simp add: onSocketClosed_def Let_def remove_connect_fired split: option.splits)

lemma run_connect_fired:
  "connect_fired (run es w) c = (connect_fired w c \<or> approved es w c)"
proof (induction es arbitrary: w)
  case Nil
  show ?case by simp
next
  case (Cons e es)
  show ?case
  proof (cases e)
    case (Attempt so now subs)
    with Cons.IH [of "step e w"] show ?thesis
      by (auto simp: attempt_connect_fired)
  next
    case (Remove conn)
    with Cons.IH [of "step e w"] show ?thesis
      by (simp add: remove_connect_fired)
  next
    case (Disconnect this err)
    with Cons.IH [of "step e w"] show ?thesis
      by (simp add: disconnect_connect_fired)
  next
    case (TransportClose this)
    with Cons.IH [of "step e w"] show ?thesis
      by (simp add: close_connect_fired)
  qed
qed

lemma approved_is_connect_fired: "approved es init c = connect_fired (run es init) c"
  by (simp add: run_connect_fired) (simp add: connect_fired_def init_def)

lemma approved_allow_first:
  "approved (Attempt (Some 7) 1000 [[Allow]] # es) init 0"
proof -
  have "verdict_approved (Some 7) [[Allow]] init"
    by (simp add: verdict_approved_def initialize_def fire_request_def allow_def isDenied_def)
  moreover have "0 = length (heap init)"
    by (simp add: init_def)
  ultimately show ?thesis by simp
qed

text \<open>
  C3, as stated, fails in both directions.  After an approved attempt,
  \<open>disconnect\<close> clears the socket and the back-reference of the \<open>Connection\<close> and
  leaves it in the live set, and the transport-close event that follows finds no
  back-reference and removes nothing; and \<open>removeConnection\<close> takes a \<open>Connection\<close>
  out of the live set while its socket is still present.
\<close>

theorem registry_invariant_counterexample:
  "\<not> registry_invariant [Attempt (Some 7) 1000 [[Allow]], Disconnect 0 (Some SESSION_TERMINATED)] \<and>
   \<not> registry_invariant
       [Attempt (Some 7) 1000 [[Allow]], Disconnect 0 (Some SESSION_TERMINATED), TransportClose 0] \<and>
   \<not> registry_invariant [Attempt (Some 7) 1000 [[Allow]], Remove (Some 0)]"
  unfolding registry_invariant_def run_allow_disconnect run_allow_disconnect_close run_allow_remove
  by (simp add: live_def approved_allow_first del: approved.simps)

text \<open>
  C3, amended.  In every state reached from the initial one by connection attempts,
  \<open>removeConnection\<close> calls and transport-close events, and by \<open>disconnect\<close> calls made
  only for a \<open>Connection\<close> that is not in the live set at the time of the call, a
  \<open>Connection\<close> is in the live set if and only if the verdict of its attempt was
  approved (\<open>isDenied\<close> was \<open>false\<close> after the broadcast), it has not been removed by
  \<open>removeConnection\<close> and its socket field has not been cleared.
\<close>

theorem registry_invariant_of_admissible_runs:
  assumes "admissible_run init es"
  shows "registry_invariant_removal es"
proof -
  from run_preserves [OF assms] init_in_step have "registry_in_step (run es init)"
    by simp
  then show ?thesis
    by (simp add: registry_in_step_def registry_invariant_removal_def approved_is_connect_fired)
qed

theorem registry_invariant_of_admissible_runs_witness:
  "admissible_run init
     [Attempt (Some 7) 1000 [[Allow]],
      Attempt (Some 8) 1001 [[Allow], [Deny (Some \<lparr>id_d = 42, msg = ''banned''\<rparr>)]],
      Disconnect 1 (Some SESSION_TERMINATED),
      Attempt (Some 9) 1002 [[Allow]],
      Attempt (Some 10) 1003 [[Allow]],
      TransportClose 0,
      Remove (Some 0),
      Remove (Some 3)] \<and>
   registry_invariant_removal
     [Attempt (Some 7) 1000 [[Allow]],
      Attempt (Some 8) 1001 [[Allow], [Deny (Some \<lparr>id_d = 42, msg = ''banned''\<rparr>)]],
      Disconnect 1 (Some SESSION_TERMINATED),
      Attempt (Some 9) 1002 [[Allow]],
      Attempt (Some 10) 1003 [[Allow]],
      TransportClose 0,
      Remove (Some 0),
      Remove (Some 3)] \<and>
   live (run
     [Attempt (Some 7) 1000 [[Allow]],
      Attempt (Some 8) 1001 [[Allow], [Deny (Some \<lparr>id_d = 42, msg = ''banned''\<rparr>)]],
      Disconnect 1 (Some SESSION_TERMINATED),
      Attempt (Some 9) 1002 [[Allow]],
      Attempt (Some 10) 1003 [[Allow]],
      TransportClose 0,
      Remove (Some 0),
      Remove (Some 3)] init) = [2] \<and>
   approved
     [Attempt (Some 7) 1000 [[Allow]],
      Attempt (Some 8) 1001 [[Allow], [Deny (Some \<lparr>id_d = 42, msg = ''banned''\<rparr>)]],
      Disconnect 1 (Some SESSION_TERMINATED),
      Attempt (Some 9) 1002 [[Allow]],
      Attempt (Some 10) 1003 [[Allow]],
      TransportClose 0,
      Remove (Some 0),
      Remove (Some 3)] init 2 \<and>
   \<not> approved
     [Attempt (Some 7) 1000 [[Allow]],
      Attempt (Some 8) 1001 [[Allow], [Deny (Some \<lparr>id_d = 42, msg = ''banned''\<rparr>)]],
      Disconnect 1 (Some SESSION_TERMINATED),
      Attempt (Some 9) 1002 [[Allow]],
      Attempt (Some 10) 1003 [[Allow]],
      TransportClose 0,
      Remove (Some 0),
      Remove (Some 3)] init 1"
proof -
  note defs = onConnectionAttempt_def Connection_new_def initialize_def fire_request_def
      allow_def deny_def isDenied_def emit_def Let_def init_def SessionServer_new_def
      disconnect_at_def disconnect_def onSocketClosed_def removeConnection_def splice1_def
      live_def verdict_approved_def SESSION_TERMINATED_def SERVER_FULL_def
  have adm: "admissible_run init
     [Attempt (Some 7) 1000 [[Allow]],
      Attempt (Some 8) 1001 [[Allow], [Deny (Some \<lparr>id_d = 42, msg = ''banned''\<rparr>)]],
      Disconnect 1 (Some SESSION_TERMINATED),
      Attempt (Some 9) 1002 [[Allow]],
      Attempt (Some 10) 1003 [[Allow]],
      TransportClose 0,
      Remove (Some 0),
      Remove (Some 3)]"
    by (simp add: defs)
  have l: "live (run
     [Attempt (Some 7) 1000 [[Allow]],
      Attempt (Some 8) 1001 [[Allow], [Deny (Some \<lparr>id_d = 42, msg = ''banned''\<rparr>)]],
      Disconnect 1 (Some SESSION_TERMINATED),
      Attempt (Some 9) 1002 [[Allow]],
      Attempt (Some 10) 1003 [[Allow]],
      TransportClose 0,
      Remove (Some 0),
      Remove (Some 3)] init) = [2]"
    by (simp add: defs)
  have yes: "approved
     [Attempt (Some 7) 1000 [[Allow]],
      Attempt (Some 8) 1001 [[Allow], [Deny (Some \<lparr>id_d = 42, msg = ''banned''\<rparr>)]],
      Disconnect 1 (Some SESSION_TERMINATED),
      Attempt (Some 9) 1002 [[Allow]],
      Attempt (Some 10) 1003 [[Allow]],
      TransportClose 0,
      Remove (Some 0),
      Remove (Some 3)] init 2"
    by (simp add: defs)
  have no: "\<not> approved
     [Attempt (Some 7) 1000 [[Allow]],
      Attempt (Some 8) 1001 [[Allow], [Deny (Some \<lparr>id_d = 42, msg = ''banned''\<rparr>)]],
      Disconnect 1 (Some SESSION_TERMINATED),
      Attempt (Some 9) 1002 [[Allow]],
      Attempt (Some 10) 1003 [[Allow]],
      TransportClose 0,
      Remove (Some 0),
      Remove (Some 3)] init 1"
    by (simp add: defs)
  from registry_invariant_of_admissible_runs [OF adm] adm l yes no show ?thesis by blast
qed

end
